theory Spec2Isabelle
  imports Main "HOL-Library.Multiset"
begin

section \<open>The inspection app of \<open>src/App.tsx\<close>\<close>

text \<open>
  The component \<open>App\<close> keeps its data in React state (the dictionaries \<open>projects\<close> and
  \<open>inspections\<close>, the form fields, the passcode gate) and in two browser stores:
  \<open>localStorage\<close> (JSON documents and the passcode digest) and the IndexedDB object store
  \<open>photos\<close>. The handlers are modelled as functions from the state before the call to an
  outcome and the state after it. What the browser supplies is a parameter of the model:
  the clock \<open>Date.now()\<close>, the date parser \<open>new Date(s).getTime()\<close>, the digest
  \<open>crypto.subtle.digest\<close>, \<open>JSON.parse\<close>, \<open>URL.createObjectURL\<close> and the failures of
  IndexedDB requests.

  Strings are lists of characters. A \<open>Record<string, T>\<close> is a plain object: its own
  properties are a map from strings to \<open>T\<close>, and a name it does not own is looked up in
  \<open>Object.prototype\<close>.
\<close>

subsection \<open>Strings\<close>

text \<open>\<open>String.prototype.trim\<close> on the white space of the character model.\<close>

definition isWhiteSpace :: "char \<Rightarrow> bool" where
  "isWhiteSpace c = (c \<in> set [CHR '' '', CHR 0x09, CHR 0x0A, CHR 0x0B, CHR 0x0C, CHR 0x0D, CHR 0xA0])"

definition trim :: "string \<Rightarrow> string" where
  "trim s = rev (dropWhile isWhiteSpace (rev (dropWhile isWhiteSpace s)))"

text \<open>The decimal text of an integer, as a template literal \<open>`${n}`\<close> renders it.\<close>

definition digitChar :: "nat \<Rightarrow> char" where
  "digitChar d = char_of (48 + d)"

fun showNat :: "nat \<Rightarrow> string" where
  "showNat n = (if n < 10 then [digitChar n] else showNat (n div 10) @ [digitChar (n mod 10)])"

declare showNat.simps [simp del]

definition showInt :: "int \<Rightarrow> string" where
  "showInt i = (if i < 0 then CHR ''-'' # showNat (nat (- i)) else showNat (nat i))"

subsection \<open>Data model\<close>

text \<open>
  \<open>ProjectMeta\<close> and \<open>InspectionEntry\<close> (lines 75-91). The fields carry a prefix, since both
  types have \<open>id\<close>, \<open>createdAt\<close> and \<open>updatedAt\<close>.
\<close>

record ProjectMeta =
  p_id :: string
  p_address :: string
  p_scope :: string
  p_createdAt :: int
  p_updatedAt :: int

record InspectionEntry =
  e_id :: string
  e_date :: string
  e_time :: string
  e_notes :: string
  e_photoKeys :: "string list"
  e_createdAt :: int
  e_updatedAt :: int

type_synonym blob = string

type_synonym photo_store = "string \<rightharpoonup> blob"

type_synonym local_storage = "string \<rightharpoonup> string"

definition LS_PROJECTS_KEY :: string where
  "LS_PROJECTS_KEY = ''mia.projects:v1''"

definition LS_INSPECTIONS_KEY :: string where
  "LS_INSPECTIONS_KEY = ''mia.inspections:v1''"

definition LS_PASSCODE_HASH :: string where
  "LS_PASSCODE_HASH = ''mia.passcode.hash:v1''"

datatype view = Auth | Home | Data | Inspection | InspectionProject | Report

record data_form =
  f_id :: string
  f_address :: string
  f_scope :: string

text \<open>
  The state of \<open>App\<close> (lines 178-215) with the two browser stores. \<open>projects\<close> and
  \<open>inspections\<close> are the own properties of the two dictionaries; \<open>projectsProto\<close> is the
  prototype of the \<open>projects\<close> object when an assignment to \<open>__proto__\<close> has replaced
  \<open>Object.prototype\<close>. \<open>notesValue\<close> is \<open>notesRef.current?.value\<close>, absent while the textarea
  is not mounted. \<open>idbReads\<close> lists the keys \<open>idbGet\<close> was called with, and \<open>objectURLs\<close>
  counts the calls of \<open>URL.createObjectURL\<close>.
\<close>

record app =
  view :: view
  projects :: "string \<rightharpoonup> ProjectMeta"
  projectsProto :: "ProjectMeta option"
  inspections :: "string \<rightharpoonup> InspectionEntry list"
  dataDialogOpen :: bool
  dataForm :: data_form
  activeProjectId :: "string option"
  entryDate :: string
  entryTime :: string
  notesValue :: "string option"
  entryPhotos :: "blob list"
  photoURLCache :: "string \<rightharpoonup> string"
  hasPasscode :: bool
  authed :: bool
  passcodeInput :: string
  passcodeConfirm :: string
  localStorage :: local_storage
  photoStore :: photo_store
  idbReads :: "string list"
  objectURLs :: nat

text \<open>
  How a handler ends: it returns without a message, shows a toast, its promise is rejected
  (by a failed IndexedDB request or by a \<open>TypeError\<close>), or it waits for ever on a promise
  that never settles.
\<close>

datatype js_error = StorageError | TypeError

datatype outcome = Silent | ToastError string | ToastSuccess string | Rejected js_error | NeverSettles

datatype 'a promise = Resolved 'a | RejectedWith js_error | Pending

subsection \<open>Property lookup in a dictionary\<close>

text \<open>
  \<open>obj[name]\<close> on a plain object: the own property when there is one, otherwise what
  \<open>Object.prototype\<close> has under that name, otherwise \<open>undefined\<close>. The properties of
  \<open>Object.prototype\<close> are those of ECMAScript: eleven functions, given with their \<open>length\<close>,
  and the accessor \<open>__proto__\<close>, whose getter returns the prototype object itself. All of
  them are truthy and none is iterable or has \<open>filter\<close> or \<open>map\<close>.
\<close>

datatype inherited = InheritedFunction nat | PrototypeObject

definition objectPrototype :: "string \<Rightarrow> inherited option" where
  "objectPrototype name =
     map_of [(''__proto__'', PrototypeObject),
             (''constructor'', InheritedFunction 1),
             (''hasOwnProperty'', InheritedFunction 1),
             (''isPrototypeOf'', InheritedFunction 1),
             (''propertyIsEnumerable'', InheritedFunction 1),
             (''toLocaleString'', InheritedFunction 0),
             (''toString'', InheritedFunction 0),
             (''valueOf'', InheritedFunction 0),
             (''__defineGetter__'', InheritedFunction 2),
             (''__defineSetter__'', InheritedFunction 2),
             (''__lookupGetter__'', InheritedFunction 1),
             (''__lookupSetter__'', InheritedFunction 1)] name"

datatype 'a property = Undefined | Own 'a | Inherited inherited

definition getProperty :: "(string \<rightharpoonup> 'a) \<Rightarrow> string \<Rightarrow> 'a property" where
  "getProperty obj name =
     (case obj name of
        Some v \<Rightarrow> Own v
      | None \<Rightarrow> (case objectPrototype name of Some i \<Rightarrow> Inherited i | None \<Rightarrow> Undefined))"

text \<open>
  \<open>obj[name] || []\<close> used as an array: the own array, the empty array for \<open>undefined\<close>, and
  no array at all (\<open>None\<close>) for an inherited function or object.
\<close>

definition orEmptyArray :: "'a list property \<Rightarrow> 'a list option" where
  "orEmptyArray p = (case p of Undefined \<Rightarrow> Some [] | Own l \<Rightarrow> Some l | Inherited i \<Rightarrow> None)"

subsection \<open>IndexedDB helper (lines 48-66)\<close>

text \<open>
  \<open>idbSet\<close> resolves on \<open>tx.oncomplete\<close> and rejects on \<open>tx.onerror\<close>. It sets no
  \<open>tx.onabort\<close>: a transaction that aborts without an error event (a failed commit, the
  quota met at commit) settles the promise neither way. A write that does not complete
  stores nothing. \<open>idbGet\<close> resolves to the stored blob or \<open>undefined\<close> and rejects on
  \<open>req.onerror\<close>. How a request ends is the browser's choice.
\<close>

datatype write_result = WriteCompletes | WriteErrors | WriteAborts

definition idbSet :: "(photo_store \<Rightarrow> string \<Rightarrow> blob \<Rightarrow> write_result) \<Rightarrow> photo_store \<Rightarrow> string \<Rightarrow> blob
    \<Rightarrow> photo_store promise" where
  "idbSet putResult db key v =
     (case putResult db key v of
        WriteCompletes \<Rightarrow> Resolved (db(key \<mapsto> v))
      | WriteErrors \<Rightarrow> RejectedWith StorageError
      | WriteAborts \<Rightarrow> Pending)"

definition idbGet :: "(photo_store \<Rightarrow> string \<Rightarrow> bool) \<Rightarrow> photo_store \<Rightarrow> string
    \<Rightarrow> js_error + blob option" where
  "idbGet getFails db key = (if getFails db key then Inl StorageError else Inr (db key))"

subsection \<open>LocalStorage helpers (lines 93-113)\<close>

text \<open>
  \<open>JSON.parse\<close> is a parameter: \<open>None\<close> is the \<open>SyntaxError\<close> it throws, which the \<open>catch\<close>
  turns into \<open>{}\<close>. An absent item (\<open>null\<close>) and the empty string are falsy.
\<close>

definition loadProjects :: "(string \<Rightarrow> (string \<rightharpoonup> ProjectMeta) option) \<Rightarrow> local_storage
    \<Rightarrow> (string \<rightharpoonup> ProjectMeta)" where
  "loadProjects parse ls =
     (case ls LS_PROJECTS_KEY of
        None \<Rightarrow> Map.empty
      | Some raw \<Rightarrow>
          if raw = [] then Map.empty
          else (case parse raw of None \<Rightarrow> Map.empty | Some v \<Rightarrow> v))"

definition loadInspections :: "(string \<Rightarrow> (string \<rightharpoonup> InspectionEntry list) option) \<Rightarrow> local_storage
    \<Rightarrow> (string \<rightharpoonup> InspectionEntry list)" where
  "loadInspections parse ls =
     (case ls LS_INSPECTIONS_KEY of
        None \<Rightarrow> Map.empty
      | Some raw \<Rightarrow>
          if raw = [] then Map.empty
          else (case parse raw of None \<Rightarrow> Map.empty | Some v \<Rightarrow> v))"

subsection \<open>Start of the component (lines 178-231)\<close>

text \<open>
  The initial state: the dictionaries are loaded, \<open>hasPasscode\<close> is
  \<open>!!localStorage.getItem(LS_PASSCODE_HASH)\<close>, \<open>authed\<close> is \<open>false\<close> and the view is
  \<open>"auth"\<close>. The first effect fills the entry date and time from the clock; they are
  given here as the two strings it builds.
\<close>

definition initialApp :: "(string \<Rightarrow> (string \<rightharpoonup> ProjectMeta) option)
    \<Rightarrow> (string \<Rightarrow> (string \<rightharpoonup> InspectionEntry list) option)
    \<Rightarrow> string \<Rightarrow> string \<Rightarrow> local_storage \<Rightarrow> photo_store \<Rightarrow> app" where
  "initialApp parseP parseI today nowTime ls db =
     \<lparr> view = Auth,
       projects = loadProjects parseP ls,
       projectsProto = None,
       inspections = loadInspections parseI ls,
       dataDialogOpen = False,
       dataForm = \<lparr> f_id = [], f_address = [], f_scope = [] \<rparr>,
       activeProjectId = None,
       entryDate = today,
       entryTime = nowTime,
       notesValue = None,
       entryPhotos = [],
       photoURLCache = Map.empty,
       hasPasscode = (case ls LS_PASSCODE_HASH of None \<Rightarrow> False | Some h \<Rightarrow> h \<noteq> []),
       authed = False,
       passcodeInput = [],
       passcodeConfirm = [],
       localStorage = ls,
       photoStore = db,
       idbReads = [],
       objectURLs = 0 \<rparr>"

subsection \<open>Passcode gate (lines 240-266)\<close>

text \<open>\<open>sha256Base64\<close> (lines 122-129) is the parameter \<open>digest\<close>.\<close>

definition handleSetPasscode :: "(string \<Rightarrow> string) \<Rightarrow> app \<Rightarrow> outcome \<times> app" where
  "handleSetPasscode digest s =
     (if passcodeInput s = [] \<or> length (passcodeInput s) < 4
        then (ToastError ''Choose a passcode (4+ chars)'', s)
      else if passcodeInput s \<noteq> passcodeConfirm s
        then (ToastError ''Passcodes do not match'', s)
      else (ToastSuccess ''Passcode set'',
            s\<lparr> localStorage := (localStorage s)(LS_PASSCODE_HASH \<mapsto> digest (passcodeInput s)),
               hasPasscode := True,
               authed := True,
               view := Home \<rparr>))"

definition handleSignIn :: "(string \<Rightarrow> string) \<Rightarrow> app \<Rightarrow> outcome \<times> app" where
  "handleSignIn digest s =
     (if passcodeInput s = [] then (ToastError ''Enter your passcode'', s)
      else (case localStorage s LS_PASSCODE_HASH of
              None \<Rightarrow> (ToastError ''No passcode set. Set one first.'', s)
            | Some stored \<Rightarrow>
                if stored = [] then (ToastError ''No passcode set. Set one first.'', s)
                else if digest (passcodeInput s) \<noteq> stored then (ToastError ''Incorrect passcode'', s)
                else (ToastSuccess ''Unlocked'',
                      s\<lparr> authed := True, view := Home, passcodeInput := [] \<rparr>)))"

definition handleSignOut :: "app \<Rightarrow> app" where
  "handleSignOut s = s\<lparr> authed := False, view := Auth \<rparr>"

subsection \<open>Projects (lines 308-325)\<close>

text \<open>
  \<open>now\<close> is the value of \<open>Date.now()\<close> at the call. \<open>next\<close> is a fresh copy of the own
  properties. \<open>prev\<close> is truthy when it is an own record and when it is inherited; only an
  own record has a \<open>createdAt\<close>. The assignment \<open>next[id] = ...\<close> creates or overwrites an
  own property, except for the name \<open>__proto__\<close> not owned by \<open>next\<close>: there it calls the
  setter of \<open>Object.prototype\<close>, which makes the record the prototype of \<open>next\<close> and adds no
  property.
\<close>

definition saveProject :: "int \<Rightarrow> app \<Rightarrow> outcome \<times> app" where
  "saveProject now s =
     (let id' = trim (f_id (dataForm s)) in
      if id' = [] then (ToastError ''Please enter a Project ID.'', s)
      else
        let prev = getProperty (projects s) id';
            meta = \<lparr> p_id = id',
                     p_address = trim (f_address (dataForm s)),
                     p_scope = trim (f_scope (dataForm s)),
                     p_createdAt = (case prev of Own p \<Rightarrow> p_createdAt p | _ \<Rightarrow> now),
                     p_updatedAt = now \<rparr>
        in (ToastSuccess (if prev = Undefined then ''Project created.'' else ''Project updated.''),
            s\<lparr> projects :=
                 (if prev = Inherited PrototypeObject then projects s else (projects s)(id' \<mapsto> meta)),
               projectsProto := (if prev = Inherited PrototypeObject then Some meta else None),
               dataDialogOpen := False,
               view := Home \<rparr>))"

subsection \<open>Inspection entries (lines 341-380)\<close>

text \<open>The key of the \<open>i\<close>-th photo: \<open>`${activeProjectId}/inspections/${entryId}/photo-${i}`\<close>.\<close>

definition photoKey :: "string \<Rightarrow> string \<Rightarrow> nat \<Rightarrow> string" where
  "photoKey projectId entryId i = projectId @ ''/inspections/'' @ entryId @ ''/photo-'' @ showNat i"

text \<open>
  The loop of lines 349-354 from index \<open>i\<close> on: each file is written under its key, and the
  key is pushed once the write has completed. A rejected write ends the handler, and a
  write that never settles holds it for ever; the blobs written before stay in the store.
\<close>

fun savePhotos :: "(photo_store \<Rightarrow> string \<Rightarrow> blob \<Rightarrow> write_result) \<Rightarrow> string \<Rightarrow> string \<Rightarrow> nat
    \<Rightarrow> blob list \<Rightarrow> string list \<Rightarrow> photo_store \<Rightarrow> string list promise \<times> photo_store" where
  "savePhotos putResult projectId entryId i [] photoKeys db = (Resolved photoKeys, db)"
| "savePhotos putResult projectId entryId i (file # files) photoKeys db =
     (let key = photoKey projectId entryId i in
      case idbSet putResult db key file of
        RejectedWith err \<Rightarrow> (RejectedWith err, db)
      | Pending \<Rightarrow> (Pending, db)
      | Resolved db' \<Rightarrow> savePhotos putResult projectId entryId (Suc i) files (photoKeys @ [key]) db')"

text \<open>
  The comparator of lines 369-373. \<open>getTime s\<close> is \<open>new Date(s).getTime()\<close>, with \<open>None\<close> for
  \<open>NaN\<close> (a string that is no date); the difference of two numbers is \<open>NaN\<close> when one of
  them is.
\<close>

definition entryInstant :: "(string \<Rightarrow> int option) \<Rightarrow> InspectionEntry \<Rightarrow> int option" where
  "entryInstant getTime e = getTime (e_date e @ ''T'' @ e_time e @ '':00'')"

definition compareEntries :: "(string \<Rightarrow> int option) \<Rightarrow> InspectionEntry \<Rightarrow> InspectionEntry \<Rightarrow> int option" where
  "compareEntries getTime a b =
     (case (entryInstant getTime a, entryInstant getTime b) of
        (Some ta, Some tb) \<Rightarrow> Some (tb - ta)
      | _ \<Rightarrow> None)"

text \<open>
  \<open>Array.prototype.sort\<close> with a comparator. \<open>sortCompare\<close> is the comparison the standard
  makes: a comparator result \<open>NaN\<close> counts as \<open>+0\<close>; \<open>x\<close> goes before \<open>y\<close> when it is negative,
  and elements that compare equal keep their order (the sort is stable).

  \<open>consistentComparator\<close> is the standard's condition on the elements of the array: every
  element equals itself, equality is symmetric and transitive, and so are \<open><\<close> and \<open>>\<close>. For
  a consistent comparator every stable sort gives the same array, here computed by
  insertion. Otherwise the standard leaves the order to the engine and only asks for a
  permutation of the elements: \<open>engineOrder\<close> is what the engine makes of the array.
\<close>

definition sortCompare :: "('a \<Rightarrow> 'a \<Rightarrow> int option) \<Rightarrow> 'a \<Rightarrow> 'a \<Rightarrow> int" where
  "sortCompare comparefn x y = (case comparefn x y of None \<Rightarrow> 0 | Some v \<Rightarrow> v)"

definition consistentComparator :: "('a \<Rightarrow> 'a \<Rightarrow> int option) \<Rightarrow> 'a list \<Rightarrow> bool" where
  "consistentComparator comparefn xs =
     list_all (\<lambda>a.
       sortCompare comparefn a a = 0 \<and>
       list_all (\<lambda>b.
         (if sortCompare comparefn a b = 0 then sortCompare comparefn b a = 0 else True) \<and>
         list_all (\<lambda>c.
           (if sortCompare comparefn a b = 0 \<and> sortCompare comparefn b c = 0
              then sortCompare comparefn a c = 0 else True) \<and>
           (if sortCompare comparefn a b < 0 \<and> sortCompare comparefn b c < 0
              then sortCompare comparefn a c < 0 else True) \<and>
           (if sortCompare comparefn a b > 0 \<and> sortCompare comparefn b c > 0
              then sortCompare comparefn a c > 0 else True)) xs) xs) xs"

fun insertSorted :: "('a \<Rightarrow> 'a \<Rightarrow> int option) \<Rightarrow> 'a \<Rightarrow> 'a list \<Rightarrow> 'a list" where
  "insertSorted comparefn x [] = [x]"
| "insertSorted comparefn x (y # ys) =
     (if sortCompare comparefn x y \<le> 0 then x # y # ys else y # insertSorted comparefn x ys)"

definition arraySort :: "('a \<Rightarrow> 'a \<Rightarrow> int option) \<Rightarrow> ('a list \<Rightarrow> 'a list) \<Rightarrow> 'a list \<Rightarrow> 'a list" where
  "arraySort comparefn engineOrder xs =
     (if consistentComparator comparefn xs then foldr (insertSorted comparefn) xs []
      else if mset (engineOrder xs) = mset xs then engineOrder xs
      else xs)"

text \<open>
  \<open>saveInspectionEntry\<close>. \<open>now\<close>, \<open>created\<close> and \<open>updated\<close> are the three readings of
  \<open>Date.now()\<close> (entry id, \<open>createdAt\<close>, \<open>updatedAt\<close>). The spread
  \<open>[...(next[activeProjectId] || []), entry]\<close> throws a \<open>TypeError\<close> when the lookup gives an
  inherited function or object; the photos are written by then.
\<close>

definition saveInspectionEntry :: "(photo_store \<Rightarrow> string \<Rightarrow> blob \<Rightarrow> write_result) \<Rightarrow> (string \<Rightarrow> int option)
    \<Rightarrow> (InspectionEntry list \<Rightarrow> InspectionEntry list) \<Rightarrow> int \<Rightarrow> int \<Rightarrow> int \<Rightarrow> app \<Rightarrow> outcome \<times> app" where
  "saveInspectionEntry putResult getTime engineOrder now created updated s =
     (case activeProjectId s of
        None \<Rightarrow> (Silent, s)
      | Some pid \<Rightarrow>
          if pid = [] then (Silent, s)
          else if entryDate s = [] \<or> entryTime s = [] then (ToastError ''Enter date and time.'', s)
          else
            let entryId = showInt now in
            (case savePhotos putResult pid entryId 0 (entryPhotos s) [] (photoStore s) of
               (RejectedWith err, db) \<Rightarrow> (Rejected err, s\<lparr> photoStore := db \<rparr>)
             | (Pending, db) \<Rightarrow> (NeverSettles, s\<lparr> photoStore := db \<rparr>)
             | (Resolved photoKeys, db) \<Rightarrow>
                 let entry = \<lparr> e_id = entryId,
                               e_date = entryDate s,
                               e_time = entryTime s,
                               e_notes = (case notesValue s of None \<Rightarrow> [] | Some v \<Rightarrow> trim v),
                               e_photoKeys = photoKeys,
                               e_createdAt = created,
                               e_updatedAt = updated \<rparr>
                 in (case orEmptyArray (getProperty (inspections s) pid) of
                       None \<Rightarrow> (Rejected TypeError, s\<lparr> photoStore := db \<rparr>)
                     | Some old \<Rightarrow>
                         (ToastSuccess ''Inspection saved.'',
                          s\<lparr> inspections := (inspections s)
                                 (pid \<mapsto> arraySort (compareEntries getTime) engineOrder (old @ [entry])),
                             notesValue := (case notesValue s of None \<Rightarrow> None | Some v \<Rightarrow> Some []),
                             entryPhotos := [],
                             photoStore := db \<rparr>))))"

subsection \<open>Photo URLs (lines 382-389)\<close>

text \<open>
  \<open>createObjectURL n\<close> is the URL the browser hands out at its \<open>n\<close>-th call. The promise is
  rejected when the read fails.
\<close>

definition photoURLFromKey :: "(photo_store \<Rightarrow> string \<Rightarrow> bool) \<Rightarrow> (nat \<Rightarrow> string) \<Rightarrow> string \<Rightarrow> app
    \<Rightarrow> (js_error + string) \<times> app" where
  "photoURLFromKey getFails createObjectURL key s =
     (case photoURLCache s key of
        Some url \<Rightarrow> (Inr url, s)
      | None \<Rightarrow>
          let s1 = s\<lparr> idbReads := idbReads s @ [key] \<rparr> in
          (case idbGet getFails (photoStore s) key of
             Inl err \<Rightarrow> (Inl err, s1)
           | Inr None \<Rightarrow> (Inr [], s1)
           | Inr (Some b) \<Rightarrow>
               let url = createObjectURL (objectURLs s1) in
               (Inr url, s1\<lparr> objectURLs := Suc (objectURLs s1),
                            photoURLCache := (photoURLCache s1)(key \<mapsto> url) \<rparr>)))"

subsection \<open>Timeline (lines 472-519)\<close>

text \<open>
  What \<open>InspectionList\<close> renders. \<open>filterDate\<close> is \<open>string | null | undefined\<close>; the test
  \<open>if (filterDate)\<close> holds for a non-empty string only, so \<open>date\<close> is empty when there is no
  filter. \<open>list\<close> is
  \<open>inspections[projectId] || []\<close>. When that is an inherited function or object,
  \<open>list.filter\<close> and \<open>list.map\<close> are no functions and calling them throws a \<open>TypeError\<close>; without
  a filter, a function of \<open>length\<close> 0 passes for an empty list.
\<close>

datatype rendering = NoInspections string | EntryCards "InspectionEntry list"

definition InspectionList :: "app \<Rightarrow> string \<Rightarrow> string option \<Rightarrow> js_error + rendering" where
  "InspectionList s projectId filterDate =
     (let date = (case filterDate of None \<Rightarrow> [] | Some d \<Rightarrow> d);
          message = ''No inspections'' @ (if date \<noteq> [] then '' on '' @ date else []) @ ''.''
      in case getProperty (inspections s) projectId of
           Inherited i \<Rightarrow>
             if date \<noteq> [] then Inl TypeError
             else if i = InheritedFunction 0 then Inr (NoInspections message)
             else Inl TypeError
         | p \<Rightarrow>
             let list0 = (case p of Own l \<Rightarrow> l | _ \<Rightarrow> []);
                 list = (if date \<noteq> [] then filter (\<lambda>e. e_date e = date) list0 else list0)
             in if length list = 0 then Inr (NoInspections message) else Inr (EntryCards list))"

subsection \<open>Auxiliary definitions\<close>

text \<open>
  The sort key that orders entries as the comparator does when every date parses: the
  negated instant.
\<close>

definition instantKey :: "(string \<Rightarrow> int option) \<Rightarrow> InspectionEntry \<Rightarrow> int" where
  "instantKey getTime e = - the (entryInstant getTime e)"

text \<open>
  Concrete values for the examples: a first start with empty stores, on 2024-03-01 at
  09:00; the instants of three date strings as a browser in UTC computes them, every other
  string taken as unparsable; and an injective stand-in for the digest.
\<close>

definition freshApp :: app where
  "freshApp = initialApp (\<lambda>raw. None) (\<lambda>raw. None) ''2024-03-01'' ''09:00'' Map.empty Map.empty"

definition utcGetTime :: "string \<Rightarrow> int option" where
  "utcGetTime s =
     (if s = ''2024-03-01T09:00:00'' then Some 1709283600000
      else if s = ''2024-03-01T14:30:00'' then Some 1709303400000
      else if s = ''2024-03-02T09:00:00'' then Some 1709370000000
      else None)"

definition exampleDigest :: "string \<Rightarrow> string" where
  "exampleDigest input = ''sha256:'' @ input"

section \<open>Auxiliary lemmas\<close>

subsection \<open>The sort\<close>

lemma insertSorted_mset: "mset (insertSorted c x ys) = add_mset x (mset ys)"
  by (induction ys) simp_all

lemma insertion_mset: "mset (foldr (insertSorted c) xs []) = mset xs"
  by (induction xs) (simp_all add: insertSorted_mset)

lemma arraySort_mset: "mset (arraySort c engineOrder xs) = mset xs"
  by (simp add: arraySort_def insertion_mset)

lemma arraySort_set: "set (arraySort c engineOrder xs) = set xs"
  by (metis arraySort_mset set_mset_mset)

lemma sortCompare_valid:
  "entryInstant getTime x \<noteq> None \<Longrightarrow> entryInstant getTime y \<noteq> None \<Longrightarrow>
   (sortCompare (compareEntries getTime) x y \<le> 0) = (instantKey getTime x \<le> instantKey getTime y)"
  by (auto simp: sortCompare_def compareEntries_def instantKey_def)

lemma sortCompare_diff:
  "entryInstant getTime x \<noteq> None \<Longrightarrow> entryInstant getTime y \<noteq> None \<Longrightarrow>
   sortCompare (compareEntries getTime) x y = instantKey getTime x - instantKey getTime y"
  by (auto simp: sortCompare_def compareEntries_def instantKey_def)

lemma consistent_parsable:
  assumes "\<forall>y \<in> set xs. entryInstant getTime y \<noteq> None"
  shows "consistentComparator (compareEntries getTime) xs"
  unfolding consistentComparator_def list_all_iff
  using assms by (auto simp: sortCompare_diff)

lemma insertSorted_insort:
  "entryInstant getTime x \<noteq> None \<Longrightarrow> \<forall>y \<in> set ys. entryInstant getTime y \<noteq> None \<Longrightarrow>
   insertSorted (compareEntries getTime) x ys = insort_key (instantKey getTime) x ys"
  by (induction ys) (simp_all add: sortCompare_valid)

lemma insertion_sort_key:
  "\<forall>y \<in> set xs. entryInstant getTime y \<noteq> None \<Longrightarrow>
   foldr (insertSorted (compareEntries getTime)) xs [] = sort_key (instantKey getTime) xs"
proof (induction xs)
  case Nil
  show ?case by simp
next
  case (Cons x xs)
  then have ih: "foldr (insertSorted (compareEntries getTime)) xs [] = sort_key (instantKey getTime) xs"
    by simp
  have "\<forall>y \<in> set (sort_key (instantKey getTime) xs). entryInstant getTime y \<noteq> None"
    using Cons.prems by simp
  with Cons.prems show ?case
    by (simp add: ih insertSorted_insort)
qed

lemma arraySort_sort_key:
  "\<forall>y \<in> set xs. entryInstant getTime y \<noteq> None \<Longrightarrow>
   arraySort (compareEntries getTime) engineOrder xs = sort_key (instantKey getTime) xs"
  by (simp add: arraySort_def consistent_parsable insertion_sort_key)

text \<open>
  When every date of the list parses, the sort orders the entries from the latest instant
  to the earliest and keeps the order of entries with the same instant.
\<close>

lemma arraySort_parsable_newest_first:
  assumes "\<forall>y \<in> set xs. entryInstant getTime y \<noteq> None"
  shows "sorted_wrt (\<lambda>a b. \<exists>ta tb. entryInstant getTime a = Some ta \<and> entryInstant getTime b = Some tb \<and> tb \<le> ta)
           (arraySort (compareEntries getTime) engineOrder xs)"
proof -
  let ?r = "sort_key (instantKey getTime) xs"
  have s: "sorted (map (instantKey getTime) ?r)" by (rule sorted_sort_key)
  have v: "\<forall>y \<in> set ?r. entryInstant getTime y \<noteq> None" using assms by simp
  have "sorted_wrt (\<lambda>a b. instantKey getTime a \<le> instantKey getTime b) ?r"
    using s by (simp add: sorted_map)
  then have "sorted_wrt (\<lambda>a b. \<exists>ta tb. entryInstant getTime a = Some ta \<and> entryInstant getTime b = Some tb \<and> tb \<le> ta) ?r"
  proof (rule sorted_wrt_mono_rel[rotated])
    fix a b assume "a \<in> set ?r" "b \<in> set ?r" "instantKey getTime a \<le> instantKey getTime b"
    moreover from \<open>a \<in> set ?r\<close> v obtain ta where "entryInstant getTime a = Some ta" by auto
    moreover from \<open>b \<in> set ?r\<close> v obtain tb where "entryInstant getTime b = Some tb" by auto
    ultimately show "\<exists>ta tb. entryInstant getTime a = Some ta \<and> entryInstant getTime b = Some tb \<and> tb \<le> ta"
      by (simp add: instantKey_def)
  qed
  then show ?thesis using assms by (simp add: arraySort_sort_key)
qed

lemma arraySort_parsable_stable:
  assumes "\<forall>y \<in> set xs. entryInstant getTime y \<noteq> None"
  shows "filter (\<lambda>e. entryInstant getTime e = k) (arraySort (compareEntries getTime) engineOrder xs)
       = filter (\<lambda>e. entryInstant getTime e = k) xs"
proof (cases k)
  case None
  have "\<forall>y \<in> set (arraySort (compareEntries getTime) engineOrder xs). entryInstant getTime y \<noteq> None"
    using assms by (simp add: arraySort_set)
  with assms None show ?thesis by (simp add: filter_empty_conv[THEN iffD2])
next
  case (Some t)
  have eq: "\<And>ys. \<forall>y \<in> set ys. entryInstant getTime y \<noteq> None \<Longrightarrow>
        filter (\<lambda>e. entryInstant getTime e = Some t) ys = filter (\<lambda>e. instantKey getTime e = - t) ys"
    by (rule filter_cong) (auto simp: instantKey_def)
  have v: "\<forall>y \<in> set (sort_key (instantKey getTime) xs). entryInstant getTime y \<noteq> None"
    using assms by simp
  show ?thesis using assms
    by (simp add: arraySort_sort_key Some eq[OF v] eq[OF assms] sort_key_stable)
qed

text \<open>
  With an unparsable date between two parsable ones the comparator is not consistent, and
  the stored order is what the engine makes of the array, here its reversal.
\<close>

lemma arraySort_engine_order:
  "\<not> consistentComparator (compareEntries utcGetTime)
       [\<lparr> e_id = ''1'', e_date = ''2024-03-01'', e_time = ''09:00'', e_notes = [], e_photoKeys = [],
           e_createdAt = 1, e_updatedAt = 1 \<rparr>,
        \<lparr> e_id = ''2'', e_date = ''not-a-date'', e_time = ''09:00'', e_notes = [], e_photoKeys = [],
           e_createdAt = 2, e_updatedAt = 2 \<rparr>,
        \<lparr> e_id = ''3'', e_date = ''2024-03-02'', e_time = ''09:00'', e_notes = [], e_photoKeys = [],
           e_createdAt = 3, e_updatedAt = 3 \<rparr>]
   \<and> map e_id (arraySort (compareEntries utcGetTime) rev
       [\<lparr> e_id = ''1'', e_date = ''2024-03-01'', e_time = ''09:00'', e_notes = [], e_photoKeys = [],
           e_createdAt = 1, e_updatedAt = 1 \<rparr>,
        \<lparr> e_id = ''2'', e_date = ''not-a-date'', e_time = ''09:00'', e_notes = [], e_photoKeys = [],
           e_createdAt = 2, e_updatedAt = 2 \<rparr>,
        \<lparr> e_id = ''3'', e_date = ''2024-03-02'', e_time = ''09:00'', e_notes = [], e_photoKeys = [],
           e_createdAt = 3, e_updatedAt = 3 \<rparr>]) = [''3'', ''2'', ''1'']"
  by (simp add: arraySort_def consistentComparator_def sortCompare_def compareEntries_def entryInstant_def
      utcGetTime_def)

lemma filter_date_time:
  "filter (\<lambda>e. e_date e = d \<and> e_time e = t) xs =
   filter (\<lambda>e. e_date e = d \<and> e_time e = t) (filter (\<lambda>e. entryInstant getTime e = getTime (d @ ''T'' @ t @ '':00'')) xs)"
  by (induction xs) (auto simp: entryInstant_def)

lemmas run_defs = saveInspectionEntry_def saveProject_def InspectionList_def freshApp_def initialApp_def
  loadProjects_def loadInspections_def arraySort_def consistentComparator_def sortCompare_def
  compareEntries_def entryInstant_def utcGetTime_def getProperty_def objectPrototype_def
  orEmptyArray_def idbSet_def trim_def isWhiteSpace_def Let_def

subsection \<open>The photo loop\<close>

lemma savePhotos_Cons:
  "savePhotos pr p e i (f # fs) ks db =
     (case pr db (photoKey p e i) f of
        WriteCompletes \<Rightarrow> savePhotos pr p e (Suc i) fs (ks @ [photoKey p e i]) (db(photoKey p e i \<mapsto> f))
      | WriteErrors \<Rightarrow> (RejectedWith StorageError, db)
      | WriteAborts \<Rightarrow> (Pending, db))"
  by (simp add: idbSet_def Let_def split: write_result.splits)

subsection \<open>Decimal text and photo keys\<close>

lemma showNat_ne [simp]: "showNat n \<noteq> []" "[] \<noteq> showNat n"
  by (subst showNat.simps, simp)+

lemma digitChar_inj: "a < 10 \<Longrightarrow> b < 10 \<Longrightarrow> digitChar a = digitChar b \<Longrightarrow> a = b"
proof -
  assume ab: "a < 10" "b < 10" and eq: "digitChar a = digitChar b"
  from eq have "of_char (digitChar a) = (of_char (digitChar b) :: nat)" by simp
  with ab show "a = b" by (simp add: digitChar_def)
qed

lemma showNat_inj: "showNat m = showNat n \<Longrightarrow> m = n"
proof (induction m arbitrary: n rule: showNat.induct)
  case (1 m)
  show ?case
  proof (cases "m < 10")
    case True
    show ?thesis
    proof (cases "n < 10")
      case nT: True
      with True "1.prems" show ?thesis
        by (simp add: showNat.simps[of m] showNat.simps[of n] digitChar_inj)
    next
      case False
      with True "1.prems" show ?thesis
        by (simp add: showNat.simps[of m] showNat.simps[of n])
    qed
  next
    case False
    show ?thesis
    proof (cases "n < 10")
      case True
      with False "1.prems" show ?thesis
        by (simp add: showNat.simps[of m] showNat.simps[of n])
    next
      case nF: False
      with False "1.prems" have a: "showNat (m div 10) = showNat (n div 10)"
        and b: "digitChar (m mod 10) = digitChar (n mod 10)"
        by (simp_all add: showNat.simps[of m] showNat.simps[of n])
      from "1.IH"[OF False a] have "m div 10 = n div 10" .
      moreover from b have "m mod 10 = n mod 10" by (intro digitChar_inj) simp_all
      ultimately show ?thesis by (metis div_mult_mod_eq)
    qed
  qed
qed

lemma showNat_digits: "c \<in> set (showNat n) \<Longrightarrow> \<exists>d<10. c = digitChar d"
proof (induction n rule: showNat.induct)
  case (1 n)
  show ?case
  proof (cases "n < 10")
    case True
    with "1.prems" show ?thesis by (auto simp: showNat.simps[of n])
  next
    case False
    with "1.prems" have "c \<in> set (showNat (n div 10)) \<or> c = digitChar (n mod 10)"
      by (auto simp: showNat.simps[of n])
    then show ?thesis
    proof
      assume "c \<in> set (showNat (n div 10))"
      then show ?thesis by (rule "1.IH"[OF False])
    next
      assume "c = digitChar (n mod 10)"
      then show ?thesis by (intro exI[of _ "n mod 10"]) simp
    qed
  qed
qed

lemma digitChar_not_sep: "d < 10 \<Longrightarrow> digitChar d \<noteq> CHR ''-'' \<and> digitChar d \<noteq> CHR ''/''"
proof -
  assume d: "d < 10"
  have a: "digitChar d \<noteq> CHR ''-''"
  proof
    assume "digitChar d = CHR ''-''"
    then have "of_char (digitChar d) = (of_char CHR ''-'' :: nat)" by simp
    with d show False by (simp add: digitChar_def)
  qed
  have b: "digitChar d \<noteq> CHR ''/''"
  proof
    assume "digitChar d = CHR ''/''"
    then have "of_char (digitChar d) = (of_char CHR ''/'' :: nat)" by simp
    with d show False by (simp add: digitChar_def)
  qed
  from a b show ?thesis by simp
qed

lemma split_at_last:
  assumes "c \<notin> set a" and "c \<notin> set a'" and "p @ c # a = p' @ c # a'"
  shows "p = p' \<and> a = a'"
proof -
  have tw: "\<And>q b. c \<notin> set b \<Longrightarrow> takeWhile (\<lambda>x. x \<noteq> c) (rev (q @ c # b)) = rev b"
  proof -
    fix q b assume "c \<notin> set b"
    then have "takeWhile (\<lambda>x. x \<noteq> c) (rev b @ c # rev q) = rev b @ takeWhile (\<lambda>x. x \<noteq> c) (c # rev q)"
      by (intro takeWhile_append2) auto
    then show "takeWhile (\<lambda>x. x \<noteq> c) (rev (q @ c # b)) = rev b" by simp
  qed
  have "rev a = rev a'"
    using tw[OF assms(1), of p] tw[OF assms(2), of p'] assms(3) by simp
  then have "a = a'" by simp
  with assms(3) show ?thesis by simp
qed

lemma showNat_no_sep: "CHR ''-'' \<notin> set (showNat n) \<and> CHR ''/'' \<notin> set (showNat n)"
proof -
  have "\<And>c. c \<in> set (showNat n) \<Longrightarrow> c \<noteq> CHR ''-'' \<and> c \<noteq> CHR ''/''"
  proof -
    fix c assume "c \<in> set (showNat n)"
    then obtain d where "d < 10" "c = digitChar d" using showNat_digits by blast
    then show "c \<noteq> CHR ''-'' \<and> c \<noteq> CHR ''/''" using digitChar_not_sep by simp
  qed
  then show ?thesis by blast
qed

lemma showInt_no_slash: "CHR ''/'' \<notin> set (showInt t)"
  using showNat_no_sep by (simp add: showInt_def)

lemma showInt_inj: "showInt a = showInt b \<Longrightarrow> a = b"
proof -
  assume eq: "showInt a = showInt b"
  have hd_nat: "\<And>n. hd (showNat n) \<noteq> CHR ''-''"
  proof -
    fix n
    have "hd (showNat n) \<in> set (showNat n)" by simp
    with showNat_no_sep[of n] show "hd (showNat n) \<noteq> CHR ''-''" by metis
  qed
  show "a = b"
  proof (cases "a < 0")
    case True
    show ?thesis
    proof (cases "b < 0")
      case bT: True
      with True eq have "nat (- a) = nat (- b)" by (simp add: showInt_def showNat_inj)
      with True bT show ?thesis by simp
    next
      case False
      with True eq have "CHR ''-'' # showNat (nat (- a)) = showNat (nat b)" by (simp add: showInt_def)
      then have "hd (showNat (nat b)) = CHR ''-''" by (metis list.sel(1))
      with hd_nat show ?thesis by simp
    qed
  next
    case False
    show ?thesis
    proof (cases "b < 0")
      case True
      with False eq have "showNat (nat a) = CHR ''-'' # showNat (nat (- b))" by (simp add: showInt_def)
      then have "hd (showNat (nat a)) = CHR ''-''" by (metis list.sel(1))
      with hd_nat show ?thesis by simp
    next
      case bF: False
      with False eq have "nat a = nat b" by (simp add: showInt_def showNat_inj)
      with False bF show ?thesis by simp
    qed
  qed
qed

lemma photoKey_inj:
  assumes "photoKey p (showInt t) i = photoKey p' (showInt t') i'"
  shows "p = p' \<and> t = t' \<and> i = i'"
proof -
  let ?a = "p @ ''/inspections/'' @ showInt t @ ''/photo''"
  let ?a' = "p' @ ''/inspections/'' @ showInt t' @ ''/photo''"
  from assms have "?a @ CHR ''-'' # showNat i = ?a' @ CHR ''-'' # showNat i'"
    by (simp add: photoKey_def)
  then have 1: "?a = ?a' \<and> showNat i = showNat i'"
    by (intro split_at_last) (simp_all add: showNat_no_sep)
  then have i: "i = i'" by (simp add: showNat_inj)
  from 1 have "(p @ ''/inspections'') @ CHR ''/'' # showInt t = (p' @ ''/inspections'') @ CHR ''/'' # showInt t'"
    by simp
  then have 2: "p @ ''/inspections'' = p' @ ''/inspections'' \<and> showInt t = showInt t'"
    by (intro split_at_last) (simp_all add: showInt_no_slash)
  then have "p = p'" "t = t'" by (simp_all add: showInt_inj)
  with i show ?thesis by simp
qed

lemma photoKey_inj_index: "photoKey p e i = photoKey p e j \<Longrightarrow> i = j"
  by (simp add: photoKey_def showNat_inj)

lemma savePhotos_ok:
  "savePhotos pr p e i0 files ks db = (Resolved keys, db') \<Longrightarrow>
   keys = ks @ map (photoKey p e) [i0..<i0 + length files]
   \<and> (\<forall>k. (\<forall>j<length files. k \<noteq> photoKey p e (i0 + j)) \<longrightarrow> db' k = db k)
   \<and> (\<forall>j<length files. db' (photoKey p e (i0 + j)) = Some (files ! j))"
proof (induction files arbitrary: i0 ks db)
  case Nil
  then show ?case by simp
next
  case (Cons f fs)
  define db1 where "db1 = db(photoKey p e i0 \<mapsto> f)"
  have nf: "pr db (photoKey p e i0) f = WriteCompletes"
    using Cons.prems by (auto simp: savePhotos_Cons simp del: savePhotos.simps(2) split: write_result.splits)
  then have step: "savePhotos pr p e i0 (f # fs) ks db = savePhotos pr p e (Suc i0) fs (ks @ [photoKey p e i0]) db1"
    by (simp add: savePhotos_Cons db1_def del: savePhotos.simps(2))
  with Cons.prems have rec: "savePhotos pr p e (Suc i0) fs (ks @ [photoKey p e i0]) db1 = (Resolved keys, db')"
    by simp
  note ih = Cons.IH[OF rec]
  have up: "[i0..<i0 + length (f # fs)] = i0 # [Suc i0..<Suc i0 + length fs]"
  proof -
    have "i0 < i0 + length (f # fs)" by simp
    from upt_conv_Cons[OF this] show ?thesis by (simp only: length_Cons add_Suc_right add_Suc)
  qed
  have k: "keys = ks @ map (photoKey p e) [i0..<i0 + length (f # fs)]"
    using ih unfolding up by simp
  have o: "\<forall>k. (\<forall>j<length (f # fs). k \<noteq> photoKey p e (i0 + j)) \<longrightarrow> db' k = db k"
  proof (intro allI impI)
    fix k assume a: "\<forall>j<length (f # fs). k \<noteq> photoKey p e (i0 + j)"
    then have "k \<noteq> photoKey p e i0" by force
    moreover have "\<forall>j<length fs. k \<noteq> photoKey p e (Suc i0 + j)" using a by force
    ultimately show "db' k = db k" using ih by (simp add: db1_def)
  qed
  have w: "\<forall>j<length (f # fs). db' (photoKey p e (i0 + j)) = Some ((f # fs) ! j)"
  proof (intro allI impI)
    fix j assume j: "j < length (f # fs)"
    show "db' (photoKey p e (i0 + j)) = Some ((f # fs) ! j)"
    proof (cases j)
      case 0
      have "\<forall>j'<length fs. photoKey p e i0 \<noteq> photoKey p e (Suc i0 + j')"
        using photoKey_inj_index[of p e i0] by fastforce
      with ih have "db' (photoKey p e i0) = db1 (photoKey p e i0)" by blast
      with 0 show ?thesis by (simp add: db1_def)
    next
      case (Suc j')
      with j ih show ?thesis by simp
    qed
  qed
  from k o w show ?case by blast
qed

lemma distinct_photoKeys: "distinct (map (photoKey p e) [0..<n])"
  by (simp add: distinct_map inj_on_def photoKey_inj_index)

section \<open>The claims\<close>

subsection \<open>Order of a project's entries\<close>

text \<open>
  Claim C1 at a date that does not parse. The entry of 2024-03-01 and an entry dated
  \<open>not-a-date\<close> are saved in the one order and in the other. Every comparison with the
  second is \<open>NaN\<close>, which the sort takes for equal, so the comparator is consistent and
  each list keeps the order of saving, whatever the engine: the same two entries are
  stored as \<open>[first, second]\<close> and as \<open>[second, first]\<close>, and no order of the keys
  \<open>(date, time)\<close> has both lists descending.
\<close>

theorem saveInspectionEntry_unparsable_date_keeps_arrival_order:
  "map (\<lambda>e. (e_date e, e_time e, entryInstant utcGetTime e))
     (the (inspections
        (snd (saveInspectionEntry (\<lambda>db k v. WriteCompletes) utcGetTime engineOrder 2 2 2
          ((snd (saveInspectionEntry (\<lambda>db k v. WriteCompletes) utcGetTime engineOrder 1 1 1
             (freshApp\<lparr> activeProjectId := Some ''10234'' \<rparr>)))
           \<lparr> entryDate := ''not-a-date'' \<rparr>))) ''10234''))
   = [(''2024-03-01'', ''09:00'', Some 1709283600000), (''not-a-date'', ''09:00'', None)]
   \<and> map (\<lambda>e. (e_date e, e_time e, entryInstant utcGetTime e))
     (the (inspections
        (snd (saveInspectionEntry (\<lambda>db k v. WriteCompletes) utcGetTime engineOrder 2 2 2
          ((snd (saveInspectionEntry (\<lambda>db k v. WriteCompletes) utcGetTime engineOrder 1 1 1
             (freshApp\<lparr> activeProjectId := Some ''10234'', entryDate := ''not-a-date'' \<rparr>)))
           \<lparr> entryDate := ''2024-03-01'' \<rparr>))) ''10234''))
   = [(''not-a-date'', ''09:00'', None), (''2024-03-01'', ''09:00'', Some 1709283600000)]"
  by (simp add: run_defs)

text \<open>
  When the dates of all entries parse, the stored list holds the old entries and the new
  one, ordered by the parsed instant from the latest to the earliest, and entries with
  the same \<open>(date, time)\<close> keep the order of saving.
\<close>

lemma saveInspectionEntry_parsable_newest_first:
  assumes ok: "saveInspectionEntry putResult getTime engineOrder now created updated s
                 = (ToastSuccess ''Inspection saved.'', s')"
    and pid: "activeProjectId s = Some pid"
    and old: "orEmptyArray (getProperty (inspections s) pid) = Some old"
    and v_old: "\<forall>e \<in> set old. entryInstant getTime e \<noteq> None"
    and v_new: "getTime (entryDate s @ ''T'' @ entryTime s @ '':00'') \<noteq> None"
  shows "\<exists>entry stored.
           inspections s' pid = Some stored \<and>
           e_id entry = showInt now \<and> e_date entry = entryDate s \<and> e_time entry = entryTime s \<and>
           mset stored = mset (old @ [entry]) \<and>
           sorted_wrt (\<lambda>a b. \<exists>ta tb. entryInstant getTime a = Some ta \<and> entryInstant getTime b = Some tb \<and> tb \<le> ta) stored \<and>
           (\<forall>d t. filter (\<lambda>e. e_date e = d \<and> e_time e = t) stored
                 = filter (\<lambda>e. e_date e = d \<and> e_time e = t) (old @ [entry]))"
proof -
  from ok pid obtain ks db where
    sp: "savePhotos putResult pid (showInt now) 0 (entryPhotos s) [] (photoStore s) = (Resolved ks, db)"
    by (auto simp: saveInspectionEntry_def Let_def split: if_splits promise.splits prod.splits option.splits)
  define entry where "entry = \<lparr> e_id = showInt now, e_date = entryDate s, e_time = entryTime s,
      e_notes = (case notesValue s of None \<Rightarrow> [] | Some v \<Rightarrow> trim v), e_photoKeys = ks,
      e_createdAt = created, e_updatedAt = updated \<rparr>"
  define stored where "stored = arraySort (compareEntries getTime) engineOrder (old @ [entry])"
  have st: "inspections s' pid = Some stored"
    using ok pid sp old by (auto simp: saveInspectionEntry_def Let_def stored_def entry_def split: if_splits)
  have v: "\<forall>e \<in> set (old @ [entry]). entryInstant getTime e \<noteq> None"
    using v_old v_new by (auto simp: entry_def entryInstant_def)
  have stab: "\<And>d t. filter (\<lambda>e. e_date e = d \<and> e_time e = t) stored
                 = filter (\<lambda>e. e_date e = d \<and> e_time e = t) (old @ [entry])"
  proof -
    fix d t
    show "filter (\<lambda>e. e_date e = d \<and> e_time e = t) stored
                 = filter (\<lambda>e. e_date e = d \<and> e_time e = t) (old @ [entry])"
      unfolding stored_def
      by (subst filter_date_time[where getTime = getTime], subst (2) filter_date_time[where getTime = getTime])
         (simp only: arraySort_parsable_stable[OF v])
  qed
  have "inspections s' pid = Some stored \<and>
           e_id entry = showInt now \<and> e_date entry = entryDate s \<and> e_time entry = entryTime s \<and>
           mset stored = mset (old @ [entry]) \<and>
           sorted_wrt (\<lambda>a b. \<exists>ta tb. entryInstant getTime a = Some ta \<and> entryInstant getTime b = Some tb \<and> tb \<le> ta) stored \<and>
           (\<forall>d t. filter (\<lambda>e. e_date e = d \<and> e_time e = t) stored
                 = filter (\<lambda>e. e_date e = d \<and> e_time e = t) (old @ [entry]))"
    using st stab arraySort_parsable_newest_first[OF v] by (simp add: entry_def stored_def arraySort_mset)
  then show ?thesis by blast
qed

text \<open>An entry of 14:30 saved after the entry of 09:00 of the same day is stored first.\<close>

lemma saveInspectionEntry_later_entry_first:
  "map e_time (the (inspections
      (snd (saveInspectionEntry (\<lambda>db k v. WriteCompletes) utcGetTime engineOrder 2 2 2
        ((snd (saveInspectionEntry (\<lambda>db k v. WriteCompletes) utcGetTime engineOrder 1 1 1
           (freshApp\<lparr> activeProjectId := Some ''10234'' \<rparr>)))
         \<lparr> entryTime := ''14:30'' \<rparr>))) ''10234''))
   = [''14:30'', ''09:00'']"
  by (simp add: run_defs)

subsection \<open>A failed photo write\<close>

text \<open>
  Claim C2 at a write whose transaction aborts without an error event. \<open>idbSet\<close> has no
  \<open>onabort\<close> handler, so its promise never settles and \<open>saveInspectionEntry\<close> neither fails nor
  finishes; the state is what it was and no entry is recorded.
\<close>

theorem saveInspectionEntry_aborted_write_never_settles:
  "saveInspectionEntry (\<lambda>db k v. WriteAborts) getTime engineOrder now created updated
      (freshApp\<lparr> activeProjectId := Some ''10234'', entryPhotos := [''photo''] \<rparr>)
   = (NeverSettles, freshApp\<lparr> activeProjectId := Some ''10234'', entryPhotos := [''photo''] \<rparr>)"
  by (simp add: saveInspectionEntry_def freshApp_def initialApp_def idbSet_def Let_def)

text \<open>
  In every other case too, an entry is recorded only when the handler ends with the toast
  \<open>Inspection saved.\<close>: a rejected write, a write that never settles and a \<open>TypeError\<close> leave
  both dictionaries as they were.
\<close>

lemma saveInspectionEntry_records_only_on_success:
  "fst (saveInspectionEntry putResult getTime engineOrder now created updated s)
     \<noteq> ToastSuccess ''Inspection saved.'' \<Longrightarrow>
   inspections (snd (saveInspectionEntry putResult getTime engineOrder now created updated s)) = inspections s
   \<and> projects (snd (saveInspectionEntry putResult getTime engineOrder now created updated s)) = projects s"
  by (auto simp: saveInspectionEntry_def Let_def split: option.splits prod.splits promise.splits)

lemma saveInspectionEntry_rejected_write:
  "activeProjectId s = Some pid \<Longrightarrow> pid \<noteq> [] \<Longrightarrow> entryDate s \<noteq> [] \<Longrightarrow> entryTime s \<noteq> [] \<Longrightarrow>
   entryPhotos s = file # files \<Longrightarrow> putResult (photoStore s) (photoKey pid (showInt now) 0) file = WriteErrors \<Longrightarrow>
   saveInspectionEntry putResult getTime engineOrder now created updated s = (Rejected StorageError, s)"
  by (simp add: saveInspectionEntry_def savePhotos_Cons Let_def del: savePhotos.simps(2))

text \<open>
  For a project id that names a property of \<open>Object.prototype\<close> the handler is rejected by a
  \<open>TypeError\<close>.
\<close>

lemma saveInspectionEntry_inherited_name:
  "saveInspectionEntry (\<lambda>db k v. WriteCompletes) getTime engineOrder now created updated
      (freshApp\<lparr> activeProjectId := Some ''constructor'' \<rparr>)
   = (Rejected TypeError, freshApp\<lparr> activeProjectId := Some ''constructor'' \<rparr>)"
  by (simp add: run_defs)

subsection \<open>Saving a project twice\<close>

text \<open>
  Claim C3, as the code has it. A project is saved at clock reading \<open>t1\<close> and again, under
  the same non-empty trimmed id, at \<open>t2\<close>; the id is stored as an own key (every id but
  \<open>__proto__\<close> not yet owned by the dictionary). The second save adds no key, keeps the
  \<open>createdAt\<close> of the first save and sets \<open>updatedAt\<close> to \<open>t2\<close>; a project that was not stored
  before has \<open>createdAt = t1\<close>. \<open>createdAt \<le> updatedAt\<close> holds after the second save exactly
  when the kept \<open>createdAt\<close> is not later than \<open>t2\<close>, so for a new project when \<open>t1 \<le> t2\<close>.
\<close>

theorem saveProject_twice_updates_in_place:
  assumes "trim (f_id (dataForm s0)) = pid" and "pid \<noteq> []"
    and "pid \<noteq> ''__proto__'' \<or> projects s0 pid \<noteq> None"
    and "trim (f_id form2) = pid"
    and "s1 = snd (saveProject t1 s0)"
    and "s2 = snd (saveProject t2 (s1\<lparr> dataForm := form2 \<rparr>))"
  shows "dom (projects s2) = dom (projects s1) \<and> card (dom (projects s2)) = card (dom (projects s1)) \<and>
         (\<exists>m1 m2. projects s1 pid = Some m1 \<and> projects s2 pid = Some m2 \<and>
            p_createdAt m2 = p_createdAt m1 \<and> p_updatedAt m1 = t1 \<and> p_updatedAt m2 = t2 \<and>
            (projects s0 pid = None \<longrightarrow> p_createdAt m1 = t1) \<and>
            ((p_createdAt m2 \<le> p_updatedAt m2) = (p_createdAt m1 \<le> t2)) \<and>
            (projects s0 pid = None \<and> t1 \<le> t2 \<longrightarrow> p_createdAt m2 \<le> p_updatedAt m2))"
proof -
  have notproto: "getProperty (projects s0) pid \<noteq> Inherited PrototypeObject"
    using assms(3) by (auto simp: getProperty_def objectPrototype_def split: option.splits if_splits)
  obtain m1 where m1: "projects s1 pid = Some m1" "p_updatedAt m1 = t1"
      "projects s0 pid = None \<longrightarrow> p_createdAt m1 = t1"
    using assms(1,2,5) notproto
    by (auto simp: saveProject_def Let_def getProperty_def split: option.splits property.splits)
  have own: "getProperty (projects s1) pid = Own m1"
    using m1(1) by (simp add: getProperty_def)
  have s2: "projects s2 = (projects s1)(pid \<mapsto> \<lparr> p_id = pid, p_address = trim (f_address form2),
      p_scope = trim (f_scope form2), p_createdAt = p_createdAt m1, p_updatedAt = t2 \<rparr>)"
    using assms(2,4,6) own by (simp add: saveProject_def Let_def)
  have d: "dom (projects s2) = dom (projects s1)"
    using m1(1) by (auto simp: s2)
  show ?thesis using m1 d by (simp add: s2)
qed

text \<open>
  The theorem for project \<open>10234\<close>, saved at 100 and at 200 with a new address.
\<close>

theorem saveProject_twice_updates_in_place_witness:
  "projects (snd (saveProject 200
      ((snd (saveProject 100
          (freshApp\<lparr> dataForm := \<lparr> f_id = '' 10234 '', f_address = ''123 Main St'', f_scope = [] \<rparr> \<rparr>)))
       \<lparr> dataForm := \<lparr> f_id = ''10234'', f_address = ''5 Oak Ave'', f_scope = [] \<rparr> \<rparr>))) ''10234''
   = Some \<lparr> p_id = ''10234'', p_address = ''5 Oak Ave'', p_scope = [], p_createdAt = 100, p_updatedAt = 200 \<rparr>
   \<and> dom (projects (snd (saveProject 200
      ((snd (saveProject 100
          (freshApp\<lparr> dataForm := \<lparr> f_id = '' 10234 '', f_address = ''123 Main St'', f_scope = [] \<rparr> \<rparr>)))
       \<lparr> dataForm := \<lparr> f_id = ''10234'', f_address = ''5 Oak Ave'', f_scope = [] \<rparr> \<rparr>))))
     = {''10234''}"
  using saveProject_twice_updates_in_place
     [of "freshApp\<lparr> dataForm := \<lparr> f_id = '' 10234 '', f_address = ''123 Main St'', f_scope = [] \<rparr> \<rparr>"
      "''10234''" "\<lparr> f_id = ''10234'', f_address = ''5 Oak Ave'', f_scope = [] \<rparr>"
      "snd (saveProject 100
          (freshApp\<lparr> dataForm := \<lparr> f_id = '' 10234 '', f_address = ''123 Main St'', f_scope = [] \<rparr> \<rparr>))"
      100
      "snd (saveProject 200
      ((snd (saveProject 100
          (freshApp\<lparr> dataForm := \<lparr> f_id = '' 10234 '', f_address = ''123 Main St'', f_scope = [] \<rparr> \<rparr>)))
       \<lparr> dataForm := \<lparr> f_id = ''10234'', f_address = ''5 Oak Ave'', f_scope = [] \<rparr> \<rparr>))"
      200]
  by (simp add: run_defs)

text \<open>
  Claim C3 as stated fails when the clock is set back between the two saves: the project
  saved at 1709283600000 and again at 1709283599000 has \<open>createdAt\<close> later than \<open>updatedAt\<close>.
\<close>

theorem saveProject_clock_set_back:
  "projects (snd (saveProject 1709283599000
      (snd (saveProject 1709283600000
          (freshApp\<lparr> dataForm := \<lparr> f_id = ''10234'', f_address = ''123 Main St'', f_scope = [] \<rparr> \<rparr>))))) ''10234''
   = Some \<lparr> p_id = ''10234'', p_address = ''123 Main St'', p_scope = [],
            p_createdAt = 1709283600000, p_updatedAt = 1709283599000 \<rparr>
   \<and> \<not> (1709283600000 :: int) \<le> 1709283599000"
  by (simp add: run_defs)

text \<open>
  The id \<open>__proto__\<close>, which the theorem leaves aside: the assignment goes to the setter of
  \<open>Object.prototype\<close>, the dictionary gets no key, and a second save finds no record whose
  \<open>createdAt\<close> it could keep.
\<close>

lemma saveProject_proto_stores_nothing:
  "projects (snd (saveProject 100
      (freshApp\<lparr> dataForm := \<lparr> f_id = ''__proto__'', f_address = ''123 Main St'', f_scope = [] \<rparr> \<rparr>))) = Map.empty
   \<and> projectsProto (snd (saveProject 200 (snd (saveProject 100
      (freshApp\<lparr> dataForm := \<lparr> f_id = ''__proto__'', f_address = ''123 Main St'', f_scope = [] \<rparr> \<rparr>)))))
     = Some \<lparr> p_id = ''__proto__'', p_address = ''123 Main St'', p_scope = [], p_createdAt = 200, p_updatedAt = 200 \<rparr>"
  by (simp add: run_defs)

text \<open>
  The outcome of \<open>saveProject\<close>: an empty id is refused, and the toast says \<open>created\<close> only
  when the lookup of the id gives nothing, not even an inherited property.
\<close>

lemma saveProject_outcome:
  "trim (f_id (dataForm s)) = [] \<Longrightarrow> saveProject now s = (ToastError ''Please enter a Project ID.'', s)"
  "trim (f_id (dataForm s)) \<noteq> [] \<Longrightarrow>
     fst (saveProject now s)
       = ToastSuccess (if getProperty (projects s) (trim (f_id (dataForm s))) = Undefined
                       then ''Project created.'' else ''Project updated.'')"
  by (simp_all add: saveProject_def Let_def)

subsection \<open>Setting and verifying the passcode\<close>



subsection \<open>The gate after setting a passcode\<close>

text \<open>
  Claim C5, as the code has it. A successful \<open>handleSetPasscode\<close> unlocks at once: it sets
  \<open>authed\<close> and shows the home view. \<open>authed\<close> is not persisted: the component starts with
  \<open>authed = false\<close> on the auth view, signing out returns there, and a sign-in that does not
  succeed leaves the state unchanged.
\<close>

theorem handleSetPasscode_unlocks:
  "(4 \<le> length (passcodeInput s) \<and> passcodeInput s = passcodeConfirm s \<longrightarrow>
      fst (handleSetPasscode digest s) = ToastSuccess ''Passcode set''
      \<and> authed (snd (handleSetPasscode digest s))
      \<and> view (snd (handleSetPasscode digest s)) = Home
      \<and> hasPasscode (snd (handleSetPasscode digest s)))
   \<and> \<not> authed (initialApp parseP parseI today nowTime ls db)
   \<and> view (initialApp parseP parseI today nowTime ls db) = Auth
   \<and> \<not> authed (handleSignOut s) \<and> view (handleSignOut s) = Auth
   \<and> (fst (handleSignIn digest s) \<noteq> ToastSuccess ''Unlocked'' \<longrightarrow> snd (handleSignIn digest s) = s)"
  by (auto simp: handleSetPasscode_def handleSignIn_def handleSignOut_def initialApp_def split: option.splits)

text \<open>The theorem on a first start, for setting \<open>abcd\<close> and for a sign-in with nothing stored.\<close>

theorem handleSetPasscode_unlocks_witness:
  "authed (snd (handleSetPasscode exampleDigest (freshApp\<lparr> passcodeInput := ''abcd'', passcodeConfirm := ''abcd'' \<rparr>)))
   \<and> snd (handleSignIn exampleDigest (freshApp\<lparr> passcodeInput := ''abcd'' \<rparr>)) = freshApp\<lparr> passcodeInput := ''abcd'' \<rparr>"
  using handleSetPasscode_unlocks [of "freshApp\<lparr> passcodeInput := ''abcd'', passcodeConfirm := ''abcd'' \<rparr>" exampleDigest]
    handleSetPasscode_unlocks [of "freshApp\<lparr> passcodeInput := ''abcd'' \<rparr>" exampleDigest]
  by (simp add: freshApp_def initialApp_def handleSignIn_def)

text \<open>
  Claim C5 as stated fails: on a first start, with no credential and \<open>authed = false\<close>,
  setting the passcode \<open>abcd\<close> leaves the session unlocked on the home view.
\<close>

theorem handleSetPasscode_not_locked:
  "\<not> hasPasscode freshApp \<and> \<not> authed freshApp
   \<and> authed (snd (handleSetPasscode exampleDigest (freshApp\<lparr> passcodeInput := ''abcd'', passcodeConfirm := ''abcd'' \<rparr>)))
   \<and> view (snd (handleSetPasscode exampleDigest (freshApp\<lparr> passcodeInput := ''abcd'', passcodeConfirm := ''abcd'' \<rparr>))) = Home"
  by (simp add: handleSetPasscode_def freshApp_def initialApp_def)

subsection \<open>Photo keys\<close>

text \<open>
  Claim C6, as the code has it. A saved entry has one key per photo, the \<open>i\<close>-th being
  \<open>projectId/inspections/entryId/photo-i\<close>; its keys are pairwise distinct, and each
  resolves to its file in the photo store. Two keys are equal only when project id, entry
  timestamp and index are equal; nothing keeps two entries from having the same timestamp.
\<close>

theorem photoKeys_of_saved_entry:
  assumes ok: "saveInspectionEntry putResult getTime engineOrder now created updated s
                 = (ToastSuccess ''Inspection saved.'', s')"
    and pid: "activeProjectId s = Some pid"
  shows "\<exists>stored entry.
           inspections s' pid = Some stored \<and> entry \<in> set stored \<and> e_id entry = showInt now \<and>
           length (e_photoKeys entry) = length (entryPhotos s) \<and>
           (\<forall>i<length (entryPhotos s).
              e_photoKeys entry ! i = photoKey pid (showInt now) i \<and>
              photoStore s' (e_photoKeys entry ! i) = Some (entryPhotos s ! i)) \<and>
           distinct (e_photoKeys entry) \<and>
           (\<forall>pid2 now2 i j. photoKey pid2 (showInt now2) j = photoKey pid (showInt now) i
              \<longrightarrow> pid2 = pid \<and> now2 = now \<and> j = i)"
proof -
  from ok pid obtain ks db old where
    sp: "savePhotos putResult pid (showInt now) 0 (entryPhotos s) [] (photoStore s) = (Resolved ks, db)"
    and oe: "orEmptyArray (getProperty (inspections s) pid) = Some old"
    by (auto simp: saveInspectionEntry_def Let_def split: if_splits promise.splits prod.splits option.splits)
  note facts = savePhotos_ok[OF sp]
  define entry where "entry = \<lparr> e_id = showInt now, e_date = entryDate s, e_time = entryTime s,
      e_notes = (case notesValue s of None \<Rightarrow> [] | Some v \<Rightarrow> trim v), e_photoKeys = ks,
      e_createdAt = created, e_updatedAt = updated \<rparr>"
  define stored where "stored = arraySort (compareEntries getTime) engineOrder (old @ [entry])"
  have st: "inspections s' pid = Some stored" and db: "photoStore s' = db"
    using ok pid sp oe by (auto simp: saveInspectionEntry_def Let_def stored_def entry_def split: if_splits)
  have "set stored = set (old @ [entry])"
    unfolding stored_def by (rule arraySort_set)
  then have mem: "entry \<in> set stored" by simp
  have ks: "ks = map (photoKey pid (showInt now)) [0..<length (entryPhotos s)]"
    using facts by simp
  have a: "length (e_photoKeys entry) = length (entryPhotos s)" by (simp add: entry_def ks)
  have b: "\<forall>i<length (entryPhotos s).
              e_photoKeys entry ! i = photoKey pid (showInt now) i \<and>
              photoStore s' (e_photoKeys entry ! i) = Some (entryPhotos s ! i)"
    using facts by (simp add: entry_def ks db)
  have c: "distinct (e_photoKeys entry)" by (simp add: entry_def ks distinct_photoKeys)
  have d: "\<forall>pid2 now2 i j. photoKey pid2 (showInt now2) j = photoKey pid (showInt now) i
              \<longrightarrow> pid2 = pid \<and> now2 = now \<and> j = i"
    using photoKey_inj by blast
  have e: "e_id entry = showInt now" by (simp add: entry_def)
  from st mem e a b c d show ?thesis by blast
qed

text \<open>The theorem for an entry with two photos.\<close>

theorem photoKeys_of_saved_entry_witness:
  "\<exists>stored entry.
      inspections (snd (saveInspectionEntry (\<lambda>db k v. WriteCompletes) utcGetTime (\<lambda>xs. xs) 1 1 1
           (freshApp\<lparr> activeProjectId := Some ''10234'', entryPhotos := [''a'', ''b''] \<rparr>))) ''10234'' = Some stored
      \<and> entry \<in> set stored
      \<and> e_photoKeys entry = [photoKey ''10234'' (showInt 1) 0, photoKey ''10234'' (showInt 1) 1]"
  using photoKeys_of_saved_entry [of "\<lambda>db k v. WriteCompletes" utcGetTime "\<lambda>xs. xs" 1 1 1
      "freshApp\<lparr> activeProjectId := Some ''10234'', entryPhotos := [''a'', ''b''] \<rparr>"
      "snd (saveInspectionEntry (\<lambda>db k v. WriteCompletes) utcGetTime (\<lambda>xs. xs) 1 1 1
           (freshApp\<lparr> activeProjectId := Some ''10234'', entryPhotos := [''a'', ''b''] \<rparr>))" "''10234''"]
  by (simp add: run_defs)

text \<open>
  Claim C6 as stated fails: two entries of one project saved at the same reading of the
  clock carry the same key, so the keys of the store are not unique.
\<close>

theorem photoKeys_collide_on_equal_timestamp:
  "concat (map e_photoKeys (the (inspections
      (snd (saveInspectionEntry (\<lambda>db k v. WriteCompletes) utcGetTime (\<lambda>xs. xs) 1709283600000 1709283600000 1709283600000
        ((snd (saveInspectionEntry (\<lambda>db k v. WriteCompletes) utcGetTime (\<lambda>xs. xs) 1709283600000 1709283600000 1709283600000
           (freshApp\<lparr> activeProjectId := Some ''10234'', entryPhotos := [''first''] \<rparr>)))
         \<lparr> entryPhotos := [''second''] \<rparr>))) ''10234'')))
   = [photoKey ''10234'' (showInt 1709283600000) 0, photoKey ''10234'' (showInt 1709283600000) 0]
   \<and> \<not> distinct (concat (map e_photoKeys (the (inspections
      (snd (saveInspectionEntry (\<lambda>db k v. WriteCompletes) utcGetTime (\<lambda>xs. xs) 1709283600000 1709283600000 1709283600000
        ((snd (saveInspectionEntry (\<lambda>db k v. WriteCompletes) utcGetTime (\<lambda>xs. xs) 1709283600000 1709283600000 1709283600000
           (freshApp\<lparr> activeProjectId := Some ''10234'', entryPhotos := [''first''] \<rparr>)))
         \<lparr> entryPhotos := [''second''] \<rparr>))) ''10234''))))"
  by (simp add: run_defs)

subsection \<open>Timeline filter\<close>

text \<open>
  Claim C7 at a project id that names a property of \<open>Object.prototype\<close>. Nothing is stored,
  and the timeline of project \<open>constructor\<close> is not empty but a \<open>TypeError\<close>, with a filter
  date and without, where project \<open>10234\<close> gets the empty state.
\<close>

theorem InspectionList_inherited_name_throws:
  "inspections freshApp = Map.empty
   \<and> InspectionList freshApp ''constructor'' (Some ''2024-03-01'') = Inl TypeError
   \<and> InspectionList freshApp ''constructor'' None = Inl TypeError
   \<and> InspectionList freshApp ''10234'' (Some ''2024-03-01'') = Inr (NoInspections ''No inspections on 2024-03-01.'')"
  by (simp add: run_defs)

text \<open>
  For a project id whose lookup gives the own list or nothing, the timeline is the stored
  list, and with a filter date \<open>d\<close> the stored entries whose \<open>date\<close> is \<open>d\<close>, in the stored order;
  the empty state is rendered when there is none.
\<close>

lemma InspectionList_own_or_absent:
  assumes "orEmptyArray (getProperty (inspections s) projectId) = Some stored"
  shows "InspectionList s projectId None
           = Inr (if stored = [] then NoInspections ''No inspections.'' else EntryCards stored)"
    and "d \<noteq> [] \<Longrightarrow> InspectionList s projectId (Some d)
           = Inr (if filter (\<lambda>e. e_date e = d) stored = []
                  then NoInspections (''No inspections on '' @ d @ ''.'')
                  else EntryCards (filter (\<lambda>e. e_date e = d) stored))"
  using assms by (auto simp: InspectionList_def orEmptyArray_def Let_def split: property.splits)

subsection \<open>Loading the dictionaries\<close>

text \<open>
  Claim C8. \<open>loadProjects\<close> and \<open>loadInspections\<close> return the empty dictionary when the item
  is absent and when its text does not parse.
\<close>

theorem load_corrupt_or_absent_is_empty:
  "(ls LS_PROJECTS_KEY = None \<longrightarrow> loadProjects parseP ls = Map.empty) \<and>
   (\<forall>raw. ls LS_PROJECTS_KEY = Some raw \<and> parseP raw = None \<longrightarrow> loadProjects parseP ls = Map.empty) \<and>
   (ls LS_INSPECTIONS_KEY = None \<longrightarrow> loadInspections parseI ls = Map.empty) \<and>
   (\<forall>raw. ls LS_INSPECTIONS_KEY = Some raw \<and> parseI raw = None \<longrightarrow> loadInspections parseI ls = Map.empty)"
  by (simp add: loadProjects_def loadInspections_def)

text \<open>The theorem for two corrupted documents and for an empty \<open>localStorage\<close>.\<close>

theorem load_corrupt_or_absent_is_empty_witness:
  "loadProjects (\<lambda>raw. None) [LS_PROJECTS_KEY \<mapsto> ''{not json''] = Map.empty
   \<and> loadInspections (\<lambda>raw. None) [LS_INSPECTIONS_KEY \<mapsto> ''[1,2''] = Map.empty
   \<and> loadProjects (\<lambda>raw. None) Map.empty = Map.empty
   \<and> loadInspections (\<lambda>raw. None) Map.empty = Map.empty"
  using load_corrupt_or_absent_is_empty [of "[LS_PROJECTS_KEY \<mapsto> ''{not json'']" "\<lambda>raw. None" "\<lambda>raw. None"]
    load_corrupt_or_absent_is_empty [of "[LS_INSPECTIONS_KEY \<mapsto> ''[1,2'']" "\<lambda>raw. None" "\<lambda>raw. None"]
    load_corrupt_or_absent_is_empty [of Map.empty "\<lambda>raw. None" "\<lambda>raw. None"]
  by (simp add: LS_PROJECTS_KEY_def LS_INSPECTIONS_KEY_def)

subsection \<open>The URL cache\<close>

text \<open>
  Claim C9, as the code has it. A cached key resolves to its cached URL with no read and
  no change of state; a resolve that finds the blob caches the new URL; a cached URL
  survives every later resolve of any key; and a key that is neither cached nor stored
  resolves, when the read succeeds, to the empty string after one read, caching nothing.
\<close>

theorem photoURLFromKey_cache:
  "(photoURLCache s key = Some url \<longrightarrow> photoURLFromKey getFails createObjectURL key s = (Inr url, s))
   \<and> (photoURLCache s key = None \<and> \<not> getFails (photoStore s) key \<and> photoStore s key = Some b \<longrightarrow>
        fst (photoURLFromKey getFails createObjectURL key s) = Inr (createObjectURL (objectURLs s))
        \<and> photoURLCache (snd (photoURLFromKey getFails createObjectURL key s)) key
             = Some (createObjectURL (objectURLs s))
        \<and> idbReads (snd (photoURLFromKey getFails createObjectURL key s)) = idbReads s @ [key])
   \<and> (photoURLCache s key = Some url \<longrightarrow>
        photoURLCache (snd (photoURLFromKey getFails createObjectURL key2 s)) key = Some url)
   \<and> (photoURLCache s key = None \<and> \<not> getFails (photoStore s) key \<and> photoStore s key = None \<longrightarrow>
        photoURLFromKey getFails createObjectURL key s = (Inr [], s\<lparr> idbReads := idbReads s @ [key] \<rparr>))"
  by (auto simp: photoURLFromKey_def idbGet_def Let_def split: option.splits)

text \<open>The theorem for a stored key resolved twice and for an absent key.\<close>

theorem photoURLFromKey_cache_witness:
  "photoURLFromKey (\<lambda>db k. False) (\<lambda>n. ''blob:'' @ showNat n) ''k''
      (snd (photoURLFromKey (\<lambda>db k. False) (\<lambda>n. ''blob:'' @ showNat n) ''k''
         (freshApp\<lparr> photoStore := [''k'' \<mapsto> ''bytes''] \<rparr>)))
   = (Inr (''blob:'' @ showNat 0),
      snd (photoURLFromKey (\<lambda>db k. False) (\<lambda>n. ''blob:'' @ showNat n) ''k''
         (freshApp\<lparr> photoStore := [''k'' \<mapsto> ''bytes''] \<rparr>)))
   \<and> photoURLFromKey (\<lambda>db k. False) (\<lambda>n. ''blob:'' @ showNat n) ''k'' freshApp
   = (Inr [], freshApp\<lparr> idbReads := [''k''] \<rparr>)"
  using photoURLFromKey_cache [of "freshApp\<lparr> photoStore := [''k'' \<mapsto> ''bytes''] \<rparr>" "''k''" _ "\<lambda>db k. False"
        "\<lambda>n. ''blob:'' @ showNat n" "''bytes''" "''k''"]
    photoURLFromKey_cache [of "snd (photoURLFromKey (\<lambda>db k. False) (\<lambda>n. ''blob:'' @ showNat n) ''k''
         (freshApp\<lparr> photoStore := [''k'' \<mapsto> ''bytes''] \<rparr>))" "''k''" "''blob:'' @ showNat 0" "\<lambda>db k. False"
        "\<lambda>n. ''blob:'' @ showNat n" "''bytes''" "''k''"]
    photoURLFromKey_cache [of freshApp "''k''" _ "\<lambda>db k. False" "\<lambda>n. ''blob:'' @ showNat n" _ "''k''"]
  by (simp add: freshApp_def initialApp_def)

text \<open>
  Claim C9 as stated fails for an absent key: the first resolve returns the empty string,
  the second reads the store again, and once the blob is there a later resolve returns a
  URL that is not the result of the first call. When the read request fails, the resolve
  of an absent key is rejected.
\<close>

theorem photoURLFromKey_absent_not_cached:
  "idbReads (snd (photoURLFromKey (\<lambda>db k. False) (\<lambda>n. ''blob:'' @ showNat n) ''k''
      (snd (photoURLFromKey (\<lambda>db k. False) (\<lambda>n. ''blob:'' @ showNat n) ''k'' freshApp)))) = [''k'', ''k'']
   \<and> fst (photoURLFromKey (\<lambda>db k. False) (\<lambda>n. ''blob:'' @ showNat n) ''k'' freshApp) = Inr []
   \<and> fst (photoURLFromKey (\<lambda>db k. False) (\<lambda>n. ''blob:'' @ showNat n) ''k''
        ((snd (photoURLFromKey (\<lambda>db k. False) (\<lambda>n. ''blob:'' @ showNat n) ''k'' freshApp))
           \<lparr> photoStore := [''k'' \<mapsto> ''bytes''] \<rparr>)) \<noteq> Inr []
   \<and> photoStore freshApp ''k'' = None
   \<and> fst (photoURLFromKey (\<lambda>db k. True) (\<lambda>n. ''blob:'' @ showNat n) ''k'' freshApp) = Inl StorageError"
  by (simp add: photoURLFromKey_def idbGet_def freshApp_def initialApp_def Let_def)

subsection \<open>Frame of the two save handlers\<close>

text \<open>
  Claim C10. \<open>saveProject\<close> leaves \<open>inspections\<close> unchanged and changes \<open>projects\<close> at most at
  the trimmed id of the form; \<open>saveInspectionEntry\<close> leaves \<open>projects\<close> unchanged and changes
  \<open>inspections\<close> at most at the active project id.
\<close>

theorem save_frame:
  "inspections (snd (saveProject now s)) = inspections s \<and>
   (\<forall>k. k \<noteq> trim (f_id (dataForm s)) \<longrightarrow> projects (snd (saveProject now s)) k = projects s k) \<and>
   projects (snd (saveInspectionEntry putResult getTime engineOrder now created updated s)) = projects s \<and>
   (\<forall>k. activeProjectId s \<noteq> Some k \<longrightarrow>
        inspections (snd (saveInspectionEntry putResult getTime engineOrder now created updated s)) k = inspections s k)"
  by (auto simp: saveProject_def saveInspectionEntry_def Let_def split: option.splits promise.splits prod.splits)

text \<open>The theorem at project \<open>10234\<close>, looking at the untouched key \<open>77\<close>.\<close>

theorem save_frame_witness:
  "projects (snd (saveProject 100
      (freshApp\<lparr> dataForm := \<lparr> f_id = ''10234'', f_address = [], f_scope = [] \<rparr> \<rparr>))) ''77'' = None
   \<and> inspections (snd (saveInspectionEntry (\<lambda>db k v. WriteCompletes) utcGetTime (\<lambda>xs. xs) 1 1 1
           (freshApp\<lparr> activeProjectId := Some ''10234'' \<rparr>))) ''77'' = None"
  using save_frame [of 100 "freshApp\<lparr> dataForm := \<lparr> f_id = ''10234'', f_address = [], f_scope = [] \<rparr> \<rparr>"]
    save_frame [of 1 "freshApp\<lparr> activeProjectId := Some ''10234'' \<rparr>" "\<lambda>db k v. WriteCompletes" utcGetTime
      "\<lambda>xs. xs" 1 1]
  by (simp add: run_defs)

end
